theory Spec2Isabelle
  imports Complex_Main
begin

section \<open>Data model of \<^verbatim>\<open>src/App.js\<close>\<close>

text \<open>
  JavaScript numbers are modelled as mathematical reals: every property below is about
  which formula the code evaluates, not about rounding. A point \<^verbatim>\<open>{x, y}\<close> is a pair.
\<close>

type_synonym point = "real \<times> real"

text \<open>
  One MediaPipe landmark \<^verbatim>\<open>{x, y, z}\<close>. The detector delivers a fixed array of 21 of them
  per hand; the code reads the indices 0, 4, 8, 12, 16 and 20 only, so a hand is modelled
  as the indexing function of that array.
\<close>

datatype landmark = Landmark (lm_x: real) (lm_y: real) (lm_z: real)

type_synonym landmarks = "nat \<Rightarrow> landmark"

text \<open>The values of \<^verbatim>\<open>ctx.globalCompositeOperation\<close> that the code uses.\<close>

datatype composite = SourceOver | DestinationOut

text \<open>
  What \<^verbatim>\<open>drawOnCanvas\<close> paints on the drawing canvas: \<^verbatim>\<open>arc\<close> + \<^verbatim>\<open>fill\<close> (centre, radius,
  fill style, compositing) or \<^verbatim>\<open>moveTo\<close> + \<^verbatim>\<open>lineTo\<close> + \<^verbatim>\<open>stroke\<close> (from, to, line width,
  stroke style, compositing). The pixels of the canvas are a function of the sequence of
  paint operations applied since it was last wiped by a full \<^verbatim>\<open>clearRect\<close>, so that
  sequence stands for the layer.
\<close>

datatype ink_cmd =
    isFillArc: FillArc point real string composite
  | isStrokeLine: StrokeLine point point real string composite

text \<open>
  What \<^verbatim>\<open>drawCursor\<close> paints: the ring (centre, radius, fill style, stroke style, line
  width) and the centre dot (centre, radius, fill style).
\<close>

datatype cursor_cmd =
    CursorRing point real string string real
  | CursorDot point real string

record 'a canvas =
  width :: nat
  height :: nat
  content :: "'a list"

text \<open>The React state the callbacks read: the four controls of the menu.\<close>

record settings =
  brushSize :: nat
  brushColor :: string
  smoothingLevel :: nat
  eraserMode :: bool

text \<open>
  The refs of the component, the React state \<^verbatim>\<open>isDrawing\<close>, and the part of the browser the
  code talks to: the table of pending timeouts (id and due time, in milliseconds), the next
  timer id (\<^verbatim>\<open>setTimeout\<close> returns a fresh positive integer) and the clock.
  \<^verbatim>\<open>cameraReady\<close> says that \<^verbatim>\<open>canvasRef.current\<close> and \<^verbatim>\<open>webcamRef.current?.video\<close> are both
  present; a canvas ref that is \<^verbatim>\<open>null\<close> is \<open>None\<close>.
\<close>

record app =
  lastPositionRef :: "point option"
  isDrawingRef :: bool
  smoothingPointsRef :: "point list"
  drawingStateTimeoutRef :: "nat option"
  lastDistanceRef :: real
  isNewStrokeRef :: bool
  lastSmoothedPositionRef :: "point option"
  velocityRef :: point
  isDrawing :: bool
  canvasDrawingRef :: "ink_cmd canvas option"
  cursorCanvasRef :: "cursor_cmd canvas option"
  cameraReady :: bool
  timers :: "(nat \<times> nat) list"
  nextTimerId :: nat
  clock :: nat

section \<open>The smoothing filter\<close>

text \<open>
  \<^verbatim>\<open>applySmoothing\<close> (lines 49-83): push, one \<^verbatim>\<open>shift\<close> when the buffer is longer than
  \<^verbatim>\<open>smoothingLevel\<close>, the two \<^verbatim>\<open>reduce\<close> sums divided by the length, then the velocity
  branch when \<^verbatim>\<open>lastSmoothedPositionRef.current\<close> is set.
\<close>

definition applySmoothing :: "settings \<Rightarrow> real \<Rightarrow> real \<Rightarrow> app \<Rightarrow> point \<times> app" where
  "applySmoothing cfg x y s =
    (let pushed = smoothingPointsRef s @ [(x, y)];
         buf = (if length pushed > smoothingLevel cfg then tl pushed else pushed);
         avgX = foldl (\<lambda>sum p. sum + fst p) 0 buf / real (length buf);
         avgY = foldl (\<lambda>sum p. sum + snd p) 0 buf / real (length buf);
         s1 = s\<lparr>smoothingPointsRef := buf\<rparr>
     in case lastSmoothedPositionRef s1 of
          Some lastSmoothed \<Rightarrow>
            (let deltaX = avgX - fst lastSmoothed;
                 deltaY = avgY - snd lastSmoothed;
                 velocity = (deltaX * 0.3 + fst (velocityRef s1) * 0.7,
                             deltaY * 0.3 + snd (velocityRef s1) * 0.7);
                 smoothedX = avgX + fst velocity * 0.2;
                 smoothedY = avgY + snd velocity * 0.2
             in ((smoothedX, smoothedY),
                 s1\<lparr>velocityRef := velocity,
                    lastSmoothedPositionRef := Some (smoothedX, smoothedY)\<rparr>))
        | None \<Rightarrow>
            ((avgX, avgY), s1\<lparr>lastSmoothedPositionRef := Some (avgX, avgY)\<rparr>))"

text \<open>
  The words of the specification, for comparison with the code: the arithmetic mean of a
  list of points, and the bounded append that evicts the oldest point on overflow.
\<close>

definition mean :: "point list \<Rightarrow> point" where
  "mean ps = (sum_list (map fst ps) / real (length ps), sum_list (map snd ps) / real (length ps))"

definition appendBounded :: "nat \<Rightarrow> point list \<Rightarrow> point \<Rightarrow> point list" where
  "appendBounded cap buf p = (if length (buf @ [p]) > cap then tl (buf @ [p]) else buf @ [p])"

section \<open>Painting\<close>

text \<open>The dot and the line segment of \<^verbatim>\<open>drawOnCanvas\<close>, with the style set at lines 101-106.\<close>

definition dotCmd :: "settings \<Rightarrow> point \<Rightarrow> ink_cmd" where
  "dotCmd cfg p =
     FillArc p (if eraserMode cfg then 10 else real (brushSize cfg) / 2)
       (if eraserMode cfg then ''#000000'' else brushColor cfg)
       (if eraserMode cfg then DestinationOut else SourceOver)"

definition lineCmd :: "settings \<Rightarrow> point \<Rightarrow> point \<Rightarrow> ink_cmd" where
  "lineCmd cfg p q =
     StrokeLine p q (if eraserMode cfg then 20 else real (brushSize cfg))
       (if eraserMode cfg then ''#000000'' else brushColor cfg)
       (if eraserMode cfg then DestinationOut else SourceOver)"

text \<open>\<^verbatim>\<open>ctx.fill()\<close> or \<^verbatim>\<open>ctx.stroke()\<close> on the drawing canvas.\<close>

definition paint :: "ink_cmd \<Rightarrow> app \<Rightarrow> app" where
  "paint c s =
     (case canvasDrawingRef s of
        None \<Rightarrow> s
      | Some canvas \<Rightarrow> s\<lparr>canvasDrawingRef := Some (canvas\<lparr>content := content canvas @ [c]\<rparr>)\<rparr>)"

text \<open>\<^verbatim>\<open>drawOnCanvas\<close> (lines 86-142).\<close>

definition drawOnCanvas :: "settings \<Rightarrow> real \<Rightarrow> real \<Rightarrow> app \<Rightarrow> app" where
  "drawOnCanvas cfg x y s =
     (case canvasDrawingRef s of
        None \<Rightarrow> s
      | Some canvas \<Rightarrow>
          (let (smoothedPoint, s1) = applySmoothing cfg x y s;
               s2 = (if isNewStrokeRef s1
                     then (paint (dotCmd cfg smoothedPoint) s1)\<lparr>isNewStrokeRef := False\<rparr>
                     else (case lastPositionRef s1 of
                             Some lastPosition \<Rightarrow>
                               (if isDrawingRef s1
                                then paint (lineCmd cfg lastPosition smoothedPoint) s1
                                else (paint (dotCmd cfg smoothedPoint) s1)\<lparr>isNewStrokeRef := False\<rparr>)
                           | None \<Rightarrow> (paint (dotCmd cfg smoothedPoint) s1)\<lparr>isNewStrokeRef := False\<rparr>))
           in s2\<lparr>lastPositionRef := Some smoothedPoint\<rparr>))"

text \<open>
  \<^verbatim>\<open>drawCursor\<close> (lines 145-174): assigning \<^verbatim>\<open>width\<close> and \<^verbatim>\<open>height\<close> and the \<^verbatim>\<open>clearRect\<close> empty the
  cursor canvas; the ring and the dot are painted only when the flag passed in is false.
\<close>

definition drawCursor :: "settings \<Rightarrow> real \<Rightarrow> real \<Rightarrow> bool \<Rightarrow> app \<Rightarrow> app" where
  "drawCursor cfg x y drawing s =
     (case cursorCanvasRef s of
        None \<Rightarrow> s
      | Some cursorCanvas \<Rightarrow>
          (case canvasDrawingRef s of
             None \<Rightarrow> s
           | Some drawingCanvas \<Rightarrow>
               (let cleared = cursorCanvas\<lparr>width := width drawingCanvas,
                                           height := height drawingCanvas, content := []\<rparr>
                in s\<lparr>cursorCanvasRef := Some
                      (if \<not> drawing
                       then cleared\<lparr>content :=
                              [CursorRing (x, y) (if eraserMode cfg then 20 else 15)
                                 (if eraserMode cfg then ''rgba(255, 255, 255, 0.3)''
                                  else ''rgba(200, 200, 200, 0.3)'') ''#ffffff'' 2,
                               CursorDot (x, y) 3 ''#ffffff'']\<rparr>
                       else cleared)\<rparr>)))"

text \<open>\<^verbatim>\<open>clearDrawingCanvas\<close> (lines 347-357).\<close>

definition clearDrawingCanvas :: "app \<Rightarrow> app" where
  "clearDrawingCanvas s =
     (case canvasDrawingRef s of
        None \<Rightarrow> s
      | Some canvas \<Rightarrow>
          s\<lparr>canvasDrawingRef := Some (canvas\<lparr>content := []\<rparr>),
            lastPositionRef := None,
            isDrawingRef := False,
            smoothingPointsRef := [],
            isNewStrokeRef := True\<rparr>)"

section \<open>Timers\<close>

text \<open>
  \<^verbatim>\<open>clearTimeout\<close> removes the timer from the browser's table; \<^verbatim>\<open>setTimeout\<close> adds one that is
  due \<open>delay\<close> milliseconds from now and returns its id. The only callback the code ever
  schedules is the one of lines 258-266, \<open>stopDrawing\<close> below, so the table needs no
  closures.
\<close>

definition clearTimeout :: "nat \<Rightarrow> app \<Rightarrow> app" where
  "clearTimeout h s = s\<lparr>timers := filter (\<lambda>(i, due). i \<noteq> h) (timers s)\<rparr>"

definition setTimeout :: "nat \<Rightarrow> app \<Rightarrow> nat \<times> app" where
  "setTimeout delay s =
     (nextTimerId s,
      s\<lparr>timers := timers s @ [(nextTimerId s, clock s + delay)],
        nextTimerId := nextTimerId s + 1\<rparr>)"

text \<open>Lines 233-235 and 253-255: a stored handle is a positive integer, hence truthy.\<close>

definition clearExistingTimeout :: "app \<Rightarrow> app" where
  "clearExistingTimeout s =
     (case drawingStateTimeoutRef s of None \<Rightarrow> s | Some h \<Rightarrow> clearTimeout h s)"

text \<open>The callback of the stop timer (lines 258-266).\<close>

definition stopDrawing :: "app \<Rightarrow> app" where
  "stopDrawing s =
     s\<lparr>lastPositionRef := None,
       isDrawingRef := False,
       smoothingPointsRef := [],
       isNewStrokeRef := True,
       isDrawing := False,
       lastSmoothedPositionRef := None,
       velocityRef := (0, 0)\<rparr>"

section \<open>The per-frame callback\<close>

text \<open>Lines 237-242, after the pending timeout has been cleared.\<close>

definition startDrawing :: "app \<Rightarrow> app" where
  "startDrawing s =
     (clearExistingTimeout s)\<lparr>lastPositionRef := None,
       isDrawingRef := True,
       smoothingPointsRef := [],
       isNewStrokeRef := True,
       isDrawing := True\<rparr>"

text \<open>Lines 252-266: clear the pending timeout and schedule the stop 30 ms from now.\<close>

definition scheduleStop :: "app \<Rightarrow> app" where
  "scheduleStop s =
     (let (h, s1) = setTimeout 30 (clearExistingTimeout s)
      in s1\<lparr>drawingStateTimeoutRef := Some h\<rparr>)"

text \<open>The state switching logic (lines 229-268).\<close>

definition switchState :: "settings \<Rightarrow> real \<Rightarrow> real \<Rightarrow> real \<Rightarrow> app \<Rightarrow> app" where
  "switchState cfg x y distance s =
     (if distance < 40
      then (let s1 = (if \<not> isDrawingRef s then startDrawing s else s)
            in if isDrawingRef s1 then drawOnCanvas cfg x y s1 else s1)
      else (if isDrawingRef s then scheduleStop s else s))"

text \<open>Lines 211-212 and 219-220: a landmark mirrored and scaled to the drawing canvas.\<close>

definition toCanvas :: "'a canvas \<Rightarrow> landmark \<Rightarrow> point" where
  "toCanvas drawingCanvas lm =
     ((1 - lm_x lm) * real (width drawingCanvas), lm_y lm * real (height drawingCanvas))"

text \<open>Line 223.\<close>

definition pinchDistance :: "'a canvas \<Rightarrow> landmarks \<Rightarrow> real" where
  "pinchDistance drawingCanvas lms =
     (let (x, y) = toCanvas drawingCanvas (lms 8);
          (thumbX, thumbY) = toCanvas drawingCanvas (lms 4)
      in sqrt ((thumbX - x)\<^sup>2 + (thumbY - y)\<^sup>2))"

text \<open>
  The fist loop (lines 271-277): \<^verbatim>\<open>for (let i = 8; i <= 20; i += 4)\<close>, leaving with
  \<^verbatim>\<open>false\<close> at the first fingertip above the wrist.
\<close>

function fistLoop :: "landmarks \<Rightarrow> nat \<Rightarrow> bool" where
  "fistLoop lms i =
     (if i \<le> 20
      then (if lm_y (lms i) < lm_y (lms 0) then False else fistLoop lms (i + 4))
      else True)"
  by pat_completeness auto
termination
  by (relation "measure (\<lambda>(lms, i). 21 - i)") auto

definition isFist :: "landmarks \<Rightarrow> bool" where
  "isFist lms = fistLoop lms 8"

text \<open>The body of the loop over \<^verbatim>\<open>results.multiHandLandmarks\<close> (lines 209-281).\<close>

definition processHand :: "settings \<Rightarrow> landmarks \<Rightarrow> app \<Rightarrow> app" where
  "processHand cfg lms s =
     (case canvasDrawingRef s of
        None \<Rightarrow> s
      | Some drawingCanvas \<Rightarrow>
          (let (x, y) = toCanvas drawingCanvas (lms 8);
               s1 = drawCursor cfg x y (isDrawingRef s) s;
               distance = pinchDistance drawingCanvas lms;
               s2 = s1\<lparr>lastDistanceRef := distance\<rparr>;
               s3 = switchState cfg x y distance s2
           in if isFist lms then clearDrawingCanvas s3 else s3))"

text \<open>
  \<^verbatim>\<open>handleMediaPipeResults\<close> (lines 177-284): nothing happens unless the video and the three
  canvases are there; the camera canvas is not modelled.
\<close>

definition handleMediaPipeResults :: "settings \<Rightarrow> landmarks list \<Rightarrow> app \<Rightarrow> app" where
  "handleMediaPipeResults cfg multiHandLandmarks s =
     (if \<not> cameraReady s \<or> canvasDrawingRef s = None \<or> cursorCanvasRef s = None then s
      else fold (processHand cfg) multiHandLandmarks s)"

section \<open>The event loop\<close>

text \<open>
  The browser runs one callback at a time. Before the callback of an event that arrives at
  time \<open>t\<close>, every timeout due by \<open>t\<close> has fired. \<open>Frame\<close> is a detection result delivered to
  \<^verbatim>\<open>handleMediaPipeResults\<close> with the settings then in force, \<open>ClearCanvas\<close> the button of the
  menu (lines 308-313), \<open>Elapse\<close> the passing of time with no event.
\<close>

datatype event =
    Frame nat settings "landmarks list"
  | ClearCanvas nat
  | Elapse nat

definition advance :: "nat \<Rightarrow> app \<Rightarrow> app" where
  "advance t s =
     (let due = filter (\<lambda>(i, d). d \<le> t) (timers s);
          s1 = s\<lparr>timers := filter (\<lambda>(i, d). \<not> d \<le> t) (timers s), clock := max (clock s) t\<rparr>
      in fold (\<lambda>_. stopDrawing) due s1)"

fun step :: "event \<Rightarrow> app \<Rightarrow> app" where
  "step (Frame t cfg multiHandLandmarks) s = handleMediaPipeResults cfg multiHandLandmarks (advance t s)"
| "step (ClearCanvas t) s = clearDrawingCanvas (advance t s)"
| "step (Elapse t) s = advance t s"

definition run :: "event list \<Rightarrow> app \<Rightarrow> app" where
  "run evs s = fold step evs s"

text \<open>
  The component after mounting: the refs as \<^verbatim>\<open>useRef\<close> initialises them (lines 18-28), the
  two canvases of the markup, 1000 by 700 and empty, no timer.
\<close>

definition initialApp :: app where
  "initialApp =
     \<lparr>lastPositionRef = None,
      isDrawingRef = False,
      smoothingPointsRef = [],
      drawingStateTimeoutRef = None,
      lastDistanceRef = 0,
      isNewStrokeRef = True,
      lastSmoothedPositionRef = None,
      velocityRef = (0, 0),
      isDrawing = False,
      canvasDrawingRef = Some \<lparr>width = 1000, height = 700, content = []\<rparr>,
      cursorCanvasRef = Some \<lparr>width = 1000, height = 700, content = []\<rparr>,
      cameraReady = True,
      timers = [],
      nextTimerId = 1,
      clock = 0\<rparr>"

section \<open>Notions used in the statements\<close>

text \<open>The Euclidean distance of the specification.\<close>

definition euclidean :: "point \<Rightarrow> point \<Rightarrow> real" where
  "euclidean p q = sqrt ((fst p - fst q)\<^sup>2 + (snd p - snd q)\<^sup>2)"

text \<open>What \<^verbatim>\<open>drawOnCanvas\<close> paints, as a function of the state it is called in.\<close>

definition strokeCmd :: "settings \<Rightarrow> app \<Rightarrow> point \<Rightarrow> ink_cmd" where
  "strokeCmd cfg s p =
     (if isNewStrokeRef s then dotCmd cfg p
      else (case lastPositionRef s of
              Some q \<Rightarrow> if isDrawingRef s then lineCmd cfg q p else dotCmd cfg p
            | None \<Rightarrow> dotCmd cfg p))"

text \<open>The loop body up to the fist check (lines 209-268), for a mounted drawing canvas.\<close>

definition trackHand :: "settings \<Rightarrow> ink_cmd canvas \<Rightarrow> landmarks \<Rightarrow> app \<Rightarrow> app" where
  "trackHand cfg drawingCanvas lms s =
     (let (x, y) = toCanvas drawingCanvas (lms 8);
          distance = pinchDistance drawingCanvas lms
      in switchState cfg x y distance
           ((drawCursor cfg x y (isDrawingRef s) s)\<lparr>lastDistanceRef := distance\<rparr>))"

text \<open>The ring and the centre dot of \<^verbatim>\<open>drawCursor\<close> (lines 160-172).\<close>

definition cursorShape :: "settings \<Rightarrow> point \<Rightarrow> cursor_cmd list" where
  "cursorShape cfg p =
     [CursorRing p (if eraserMode cfg then 20 else 15)
        (if eraserMode cfg then ''rgba(255, 255, 255, 0.3)'' else ''rgba(200, 200, 200, 0.3)'')
        ''#ffffff'' 2,
      CursorDot p 3 ''#ffffff'']"

section \<open>Strokes\<close>

text \<open>
  Consecutive detection results, one hand each, delivered to the callback with nothing in
  between: no timeout fires and no command of the menu runs.
\<close>

definition processFrames :: "(settings \<times> landmarks) list \<Rightarrow> app \<Rightarrow> app" where
  "processFrames frames s = fold (\<lambda>(cfg, lms). handleMediaPipeResults cfg [lms]) frames s"

text \<open>
  The outputs of successive calls of the smoothing filter on a list of raw points, each
  with the settings of its frame.
\<close>

fun smoothTrace :: "(settings \<times> point) list \<Rightarrow> app \<Rightarrow> point list" where
  "smoothTrace [] s = []"
| "smoothTrace ((cfg, p) # rest) s =
     fst (applySmoothing cfg (fst p) (snd p) s)
       # smoothTrace rest (snd (applySmoothing cfg (fst p) (snd p) s))"

text \<open>
  The ink of a stroke, from its smoothed points: a dot at the first, then a segment from
  each point to the next, each in the style of the frame that paints it.
\<close>

fun segments :: "point \<Rightarrow> (settings \<times> point) list \<Rightarrow> ink_cmd list" where
  "segments q [] = []"
| "segments q ((cfg, p) # rest) = lineCmd cfg q p # segments p rest"

fun strokeInk :: "(settings \<times> point) list \<Rightarrow> ink_cmd list" where
  "strokeInk [] = []"
| "strokeInk ((cfg, p) # rest) = dotCmd cfg p # segments p rest"

text \<open>The raw input of the filter: the index fingertip of each frame in canvas pixels.\<close>

definition indexTips :: "'a canvas \<Rightarrow> (settings \<times> landmarks) list \<Rightarrow> (settings \<times> point) list" where
  "indexTips drawingCanvas frames = map (\<lambda>(cfg, lms). (cfg, toCanvas drawingCanvas (lms 8))) frames"

text \<open>Two states whose smoothing filters are in the same state.\<close>

definition sameFilter :: "app \<Rightarrow> app \<Rightarrow> bool" where
  "sameFilter s t =
     (smoothingPointsRef s = smoothingPointsRef t \<and>
      lastSmoothedPositionRef s = lastSmoothedPositionRef t \<and>
      velocityRef s = velocityRef t)"

section \<open>Inputs for the worked examples\<close>

text \<open>Settings with a smoothing window of two points, and the defaults of the menu otherwise.\<close>

definition demoSettings :: settings where
  "demoSettings = \<lparr>brushSize = 5, brushColor = ''#ffffff'', smoothingLevel = 2, eraserMode = False\<rparr>"

text \<open>
  A hand for the examples: the wrist at height \<open>wristY\<close>, the thumb tip and the index
  fingertip where given, every other landmark at height \<open>others\<close>.
\<close>

definition hand :: "real \<Rightarrow> point \<Rightarrow> point \<Rightarrow> real \<Rightarrow> landmarks" where
  "hand wristY thumb index others =
     (\<lambda>i. if i = 0 then Landmark 0.5 wristY 0
          else if i = 4 then Landmark (fst thumb) (snd thumb) 0
          else if i = 8 then Landmark (fst index) (snd index) 0
          else Landmark 0.5 others 0)"

text \<open>A fist that also pinches: every fingertip below the wrist, thumb on index.\<close>

definition fistHand :: landmarks where
  "fistHand = hand 0.4 (0.5, 0.6) (0.5, 0.6) 0.7"

text \<open>Thumb and index fingertip exactly 40 pixels apart on the 1000 by 700 canvas; no fist.\<close>

definition edgeHand :: landmarks where
  "edgeHand = hand 0.9 (0.5, 0.5) (0.54, 0.5) 0.3"

text \<open>Thumb on the index fingertip at the normalised position \<open>(x, y)\<close>; no fist.\<close>

definition pinchHand :: "real \<Rightarrow> real \<Rightarrow> landmarks" where
  "pinchHand x y = hand 0.9 (x, y) (x, y) 0.3"

text \<open>An open hand: thumb tip and index fingertip 500 pixels apart; no fist.\<close>

definition openHand :: landmarks where
  "openHand = hand 0.9 (0.2, 0.5) (0.7, 0.5) 0.3"

text \<open>The first frame of a stroke, and a stroke of two frames whose stop timer is pending.\<close>

definition firstFrame :: app where
  "firstFrame = handleMediaPipeResults demoSettings [pinchHand 0.5 0.5] initialApp"

definition pendingStop :: app where
  "pendingStop =
     run [Frame 0 demoSettings [pinchHand 0.5 0.5], Frame 10 demoSettings [pinchHand 0.4 0.5],
          Frame 20 demoSettings [openHand]] initialApp"

text \<open>Three pinching frames, moving left to right on the mirrored canvas.\<close>

definition threeFrames :: "(settings \<times> landmarks) list" where
  "threeFrames =
     [(demoSettings, pinchHand 0.5 0.5), (demoSettings, pinchHand 0.4 0.5),
      (demoSettings, pinchHand 0.3 0.5)]"

section \<open>The smoothing filter follows its specification\<close>

lemma foldl_add_fst: "foldl (\<lambda>sum p. sum + fst p) a ps = (a::real) + sum_list (map fst ps)"
  by (induction ps arbitrary: a) (simp_all add: add.assoc)

lemma foldl_add_snd: "foldl (\<lambda>sum p. sum + snd p) a ps = (a::real) + sum_list (map snd ps)"
  by (induction ps arbitrary: a) (simp_all add: add.assoc)

lemma appendBounded_nonempty: "0 < cap \<Longrightarrow> appendBounded cap buf p \<noteq> []"
  by (cases buf) (simp_all add: appendBounded_def)

lemma appendBounded_last: "0 < cap \<Longrightarrow> last (appendBounded cap buf p) = p"
  by (cases buf) (simp_all add: appendBounded_def last_tl)

lemma appendBounded_length: "length buf \<le> cap \<Longrightarrow> length (appendBounded cap buf p) \<le> cap"
  by (simp add: appendBounded_def)


text \<open>
  Claim C1. For every call of \<^verbatim>\<open>applySmoothing\<close> with a smoothing level of at least one: the
  raw point is appended to the buffer and the oldest point is dropped when the length then
  exceeds the smoothing level, so a buffer within the level stays within it; the average is the arithmetic mean of the points buffered
  after that; without a previous smoothed output the result is the average, and with one
  the velocity becomes 0.3 times (average minus previous output) plus 0.7 times the old
  velocity, componentwise, and the result is the average plus 0.2 times the new velocity;
  the result is stored as the previous smoothed output, and no other field changes.
\<close>

theorem smooth_follows_spec:
  assumes "0 < smoothingLevel cfg"
  shows "let buf = appendBounded (smoothingLevel cfg) (smoothingPointsRef s) (x, y);
             avg = mean buf
         in buf \<noteq> [] \<and> last buf = (x, y) \<and>
            (length (smoothingPointsRef s) \<le> smoothingLevel cfg
               \<longrightarrow> length buf \<le> smoothingLevel cfg) \<and>
            (if length (smoothingPointsRef s) < smoothingLevel cfg
             then buf = smoothingPointsRef s @ [(x, y)]
             else buf = tl (smoothingPointsRef s @ [(x, y)])) \<and>
            applySmoothing cfg x y s =
              (case lastSmoothedPositionRef s of
                 None \<Rightarrow>
                   (avg, s\<lparr>smoothingPointsRef := buf, lastSmoothedPositionRef := Some avg\<rparr>)
               | Some lastSmoothed \<Rightarrow>
                   (let velocity =
                          (0.3 * (fst avg - fst lastSmoothed) + 0.7 * fst (velocityRef s),
                           0.3 * (snd avg - snd lastSmoothed) + 0.7 * snd (velocityRef s));
                        out = (fst avg + 0.2 * fst velocity, snd avg + 0.2 * snd velocity)
                    in (out, s\<lparr>smoothingPointsRef := buf, velocityRef := velocity,
                               lastSmoothedPositionRef := Some out\<rparr>)))"
proof -
  let ?buf = "appendBounded (smoothingLevel cfg) (smoothingPointsRef s) (x, y)"
  have ne: "?buf \<noteq> []"
    using assms by (rule appendBounded_nonempty)
  have la: "last ?buf = (x, y)"
    using assms by (rule appendBounded_last)
  have shape: "if length (smoothingPointsRef s) < smoothingLevel cfg
               then ?buf = smoothingPointsRef s @ [(x, y)]
               else ?buf = tl (smoothingPointsRef s @ [(x, y)])"
    by (auto simp add: appendBounded_def)
  have code: "applySmoothing cfg x y s =
      (case lastSmoothedPositionRef s of
         None \<Rightarrow>
           (mean ?buf, s\<lparr>smoothingPointsRef := ?buf, lastSmoothedPositionRef := Some (mean ?buf)\<rparr>)
       | Some lastSmoothed \<Rightarrow>
           (let velocity =
                  (0.3 * (fst (mean ?buf) - fst lastSmoothed) + 0.7 * fst (velocityRef s),
                   0.3 * (snd (mean ?buf) - snd lastSmoothed) + 0.7 * snd (velocityRef s));
                out = (fst (mean ?buf) + 0.2 * fst velocity, snd (mean ?buf) + 0.2 * snd velocity)
            in (out, s\<lparr>smoothingPointsRef := ?buf, velocityRef := velocity,
                       lastSmoothedPositionRef := Some out\<rparr>)))"
    by (cases "lastSmoothedPositionRef s")
       (simp_all add: applySmoothing_def appendBounded_def mean_def Let_def
          foldl_add_fst foldl_add_snd mult.commute)
  have bound: "length (smoothingPointsRef s) \<le> smoothingLevel cfg
                 \<longrightarrow> length ?buf \<le> smoothingLevel cfg"
    by (simp add: appendBounded_length)
  show ?thesis
    using ne la bound shape code by (simp add: Let_def)
qed

theorem smooth_follows_spec_witness:
  "0 < smoothingLevel demoSettings \<and>
   length [(0, 0), (2, 4) :: point] \<le> smoothingLevel demoSettings \<and>
   fst (applySmoothing demoSettings 4 8
          (initialApp\<lparr>smoothingPointsRef := [(0, 0), (2, 4)],
                      lastSmoothedPositionRef := Some (1, 1), velocityRef := (1, 0)\<rparr>))
     = (3.26, 6.3) \<and>
   smoothingPointsRef (snd (applySmoothing demoSettings 4 8
          (initialApp\<lparr>smoothingPointsRef := [(0, 0), (2, 4)],
                      lastSmoothedPositionRef := Some (1, 1), velocityRef := (1, 0)\<rparr>)))
     = [(2, 4), (4, 8)] \<and>
   fst (applySmoothing demoSettings 4 8 initialApp) = (4, 8)"
  using smooth_follows_spec [of demoSettings "initialApp\<lparr>smoothingPointsRef := [(0, 0), (2, 4)],
                      lastSmoothedPositionRef := Some (1, 1), velocityRef := (1, 0)\<rparr>" 4 8]
    smooth_follows_spec [of demoSettings initialApp 4 8]
  by (simp add: demoSettings_def initialApp_def appendBounded_def mean_def Let_def)

section \<open>Frame lemmas\<close>

lemma applySmoothing_frame [simp]:
  "canvasDrawingRef (snd (applySmoothing cfg x y s)) = canvasDrawingRef s"
  "cursorCanvasRef (snd (applySmoothing cfg x y s)) = cursorCanvasRef s"
  "isNewStrokeRef (snd (applySmoothing cfg x y s)) = isNewStrokeRef s"
  "lastPositionRef (snd (applySmoothing cfg x y s)) = lastPositionRef s"
  "isDrawingRef (snd (applySmoothing cfg x y s)) = isDrawingRef s"
  "isDrawing (snd (applySmoothing cfg x y s)) = isDrawing s"
  "drawingStateTimeoutRef (snd (applySmoothing cfg x y s)) = drawingStateTimeoutRef s"
  "lastDistanceRef (snd (applySmoothing cfg x y s)) = lastDistanceRef s"
  "cameraReady (snd (applySmoothing cfg x y s)) = cameraReady s"
  "timers (snd (applySmoothing cfg x y s)) = timers s"
  "nextTimerId (snd (applySmoothing cfg x y s)) = nextTimerId s"
  "clock (snd (applySmoothing cfg x y s)) = clock s"
  by (simp_all add: applySmoothing_def Let_def split: option.splits)

lemma drawOnCanvas_present:
  assumes dc: "canvasDrawingRef s = Some dc"
  shows "drawOnCanvas cfg x y s =
           (snd (applySmoothing cfg x y s))
             \<lparr>canvasDrawingRef :=
                 Some (dc\<lparr>content := content dc @ [strokeCmd cfg s (fst (applySmoothing cfg x y s))]\<rparr>),
              isNewStrokeRef := False,
              lastPositionRef := Some (fst (applySmoothing cfg x y s))\<rparr>"
proof -
  obtain p s1 where eq: "applySmoothing cfg x y s = (p, s1)"
    by (cases "applySmoothing cfg x y s")
  have s1: "canvasDrawingRef s1 = Some dc" "isNewStrokeRef s1 = isNewStrokeRef s"
    "lastPositionRef s1 = lastPositionRef s" "isDrawingRef s1 = isDrawingRef s"
    using applySmoothing_frame [of cfg x y s] dc by (simp_all add: eq)
  show ?thesis
    by (simp add: drawOnCanvas_def dc eq s1 paint_def strokeCmd_def split: option.splits)
qed

lemma drawCursor_frame [simp]:
  "canvasDrawingRef (drawCursor cfg x y b s) = canvasDrawingRef s"
  "isNewStrokeRef (drawCursor cfg x y b s) = isNewStrokeRef s"
  "lastPositionRef (drawCursor cfg x y b s) = lastPositionRef s"
  "isDrawingRef (drawCursor cfg x y b s) = isDrawingRef s"
  "isDrawing (drawCursor cfg x y b s) = isDrawing s"
  "drawingStateTimeoutRef (drawCursor cfg x y b s) = drawingStateTimeoutRef s"
  "lastDistanceRef (drawCursor cfg x y b s) = lastDistanceRef s"
  "smoothingPointsRef (drawCursor cfg x y b s) = smoothingPointsRef s"
  "lastSmoothedPositionRef (drawCursor cfg x y b s) = lastSmoothedPositionRef s"
  "velocityRef (drawCursor cfg x y b s) = velocityRef s"
  "cameraReady (drawCursor cfg x y b s) = cameraReady s"
  "timers (drawCursor cfg x y b s) = timers s"
  "nextTimerId (drawCursor cfg x y b s) = nextTimerId s"
  "clock (drawCursor cfg x y b s) = clock s"
  by (simp_all add: drawCursor_def Let_def split: option.splits)

lemma clearExistingTimeout_frame [simp]:
  "canvasDrawingRef (clearExistingTimeout s) = canvasDrawingRef s"
  "cursorCanvasRef (clearExistingTimeout s) = cursorCanvasRef s"
  "isNewStrokeRef (clearExistingTimeout s) = isNewStrokeRef s"
  "lastPositionRef (clearExistingTimeout s) = lastPositionRef s"
  "isDrawingRef (clearExistingTimeout s) = isDrawingRef s"
  "isDrawing (clearExistingTimeout s) = isDrawing s"
  "drawingStateTimeoutRef (clearExistingTimeout s) = drawingStateTimeoutRef s"
  "lastDistanceRef (clearExistingTimeout s) = lastDistanceRef s"
  "smoothingPointsRef (clearExistingTimeout s) = smoothingPointsRef s"
  "lastSmoothedPositionRef (clearExistingTimeout s) = lastSmoothedPositionRef s"
  "velocityRef (clearExistingTimeout s) = velocityRef s"
  "cameraReady (clearExistingTimeout s) = cameraReady s"
  "nextTimerId (clearExistingTimeout s) = nextTimerId s"
  "clock (clearExistingTimeout s) = clock s"
  by (simp_all add: clearExistingTimeout_def clearTimeout_def split: option.splits)

lemma scheduleStop_frame [simp]:
  "canvasDrawingRef (scheduleStop s) = canvasDrawingRef s"
  "cursorCanvasRef (scheduleStop s) = cursorCanvasRef s"
  "isNewStrokeRef (scheduleStop s) = isNewStrokeRef s"
  "lastPositionRef (scheduleStop s) = lastPositionRef s"
  "isDrawingRef (scheduleStop s) = isDrawingRef s"
  "isDrawing (scheduleStop s) = isDrawing s"
  "lastDistanceRef (scheduleStop s) = lastDistanceRef s"
  "smoothingPointsRef (scheduleStop s) = smoothingPointsRef s"
  "lastSmoothedPositionRef (scheduleStop s) = lastSmoothedPositionRef s"
  "velocityRef (scheduleStop s) = velocityRef s"
  "cameraReady (scheduleStop s) = cameraReady s"
  "clock (scheduleStop s) = clock s"
  by (simp_all add: scheduleStop_def setTimeout_def)

lemma startDrawing_frame [simp]:
  "canvasDrawingRef (startDrawing s) = canvasDrawingRef s"
  "cursorCanvasRef (startDrawing s) = cursorCanvasRef s"
  "isNewStrokeRef (startDrawing s) = True"
  "lastPositionRef (startDrawing s) = None"
  "isDrawingRef (startDrawing s) = True"
  "isDrawing (startDrawing s) = True"
  "drawingStateTimeoutRef (startDrawing s) = drawingStateTimeoutRef s"
  "lastDistanceRef (startDrawing s) = lastDistanceRef s"
  "smoothingPointsRef (startDrawing s) = []"
  "lastSmoothedPositionRef (startDrawing s) = lastSmoothedPositionRef s"
  "velocityRef (startDrawing s) = velocityRef s"
  "cameraReady (startDrawing s) = cameraReady s"
  "nextTimerId (startDrawing s) = nextTimerId s"
  "clock (startDrawing s) = clock s"
  by (simp_all add: startDrawing_def)

section \<open>The gesture classifier\<close>

declare fistLoop.simps [simp del]

lemma isFist_unfold:
  "isFist lms =
     (\<not> lm_y (lms 8) < lm_y (lms 0) \<and> \<not> lm_y (lms 12) < lm_y (lms 0) \<and>
      \<not> lm_y (lms 16) < lm_y (lms 0) \<and> \<not> lm_y (lms 20) < lm_y (lms 0))"
proof -
  have l24: "fistLoop lms 24 = True"
    by (simp add: fistLoop.simps [of lms 24])
  have l20: "fistLoop lms 20 = (\<not> lm_y (lms 20) < lm_y (lms 0))"
    using l24 by (simp add: fistLoop.simps [of lms 20])
  have l16: "fistLoop lms 16 = (\<not> lm_y (lms 16) < lm_y (lms 0) \<and> fistLoop lms 20)"
    by (simp add: fistLoop.simps [of lms 16])
  have l12: "fistLoop lms 12 = (\<not> lm_y (lms 12) < lm_y (lms 0) \<and> fistLoop lms 16)"
    by (simp add: fistLoop.simps [of lms 12])
  have l8: "fistLoop lms 8 = (\<not> lm_y (lms 8) < lm_y (lms 0) \<and> fistLoop lms 12)"
    by (simp add: fistLoop.simps [of lms 8])
  show ?thesis
    unfolding isFist_def l8 l12 l16 l20 by simp
qed

text \<open>
  Claim C4. A landmark set is classified as a fist iff each of the fingertips 8, 12, 16 and
  20 has a y-coordinate greater than or equal to the wrist's (landmark 0); so a set with
  all four at or below the wrist is a fist, and replacing one of these fingertips by a
  landmark whose y is less than the wrist's makes it a non-fist.
\<close>

theorem fist_iff_fingertips_not_above_wrist:
  "(isFist lms \<longleftrightarrow> (\<forall>i \<in> {8, 12, 16, 20}. lm_y (lms 0) \<le> lm_y (lms i))) \<and>
   (isFist lms \<and> i \<in> {8, 12, 16, 20} \<and> v < lm_y (lms 0)
      \<longrightarrow> \<not> isFist (lms(i := Landmark u v w)))"
  by (auto simp add: isFist_unfold not_less)

theorem fist_witness:
  "isFist fistHand \<and> (12::nat) \<in> {8, 12, 16, 20} \<and> 0.1 < lm_y (fistHand 0) \<and>
   \<not> isFist (fistHand(12 := Landmark 0.5 0.1 0))"
  using fist_iff_fingertips_not_above_wrist [of fistHand 12 "0.1" "0.5" 0]
  by (simp add: fistHand_def hand_def)

lemma pinchDistance_euclidean:
  "pinchDistance dc lms = euclidean (toCanvas dc (lms 4)) (toCanvas dc (lms 8))"
  by (simp add: pinchDistance_def euclidean_def split: prod.splits)

lemma switchState_draw:
  assumes "canvasDrawingRef s = Some dc" and "distance < 40"
  shows "isDrawingRef (switchState cfg x y distance s)"
    and "canvasDrawingRef (switchState cfg x y distance s)
           = Some (dc\<lparr>content := content dc @
                [strokeCmd cfg (if isDrawingRef s then s else startDrawing s)
                   (fst (applySmoothing cfg x y (if isDrawingRef s then s else startDrawing s)))]\<rparr>)"
  using assms by (simp_all add: switchState_def Let_def drawOnCanvas_present)

lemma switchState_no_draw:
  assumes "\<not> distance < 40"
  shows "isDrawingRef (switchState cfg x y distance s) = isDrawingRef s"
    and "canvasDrawingRef (switchState cfg x y distance s) = canvasDrawingRef s"
  using assms by (simp_all add: switchState_def)

lemma canvas_not_grown:
  assumes "r = Some dc"
  shows "r \<noteq> Some (dc\<lparr>content := content dc @ [c]\<rparr>)"
proof
  assume "r = Some (dc\<lparr>content := content dc @ [c]\<rparr>)"
  then have "map_option content r = Some (content dc @ [c])"
    by simp
  moreover have "map_option content r = Some (content dc)"
    using assms by simp
  ultimately show False
    by simp
qed

text \<open>
  Claim C3. With the drawing canvas \<open>dc\<close> mounted, \<^verbatim>\<open>processHand\<close> maps the thumb tip (4) and
  the index fingertip (8) to canvas pixels by \<open>((1 - x) * width, y * height)\<close>, takes their
  Euclidean distance \<open>d\<close> and runs the state switch on it, followed by the fist check. The
  switch commits a point to the ink layer iff \<open>d < 40\<close>, and then the session is drawing;
  otherwise the layer and the drawing flag are as before. At \<open>d = 40\<close> exactly nothing is
  committed.
\<close>

theorem draw_gesture_iff_pinch_below_40:
  assumes "canvasDrawingRef s = Some dc"
  shows "let thumb = ((1 - lm_x (lms 4)) * real (width dc), lm_y (lms 4) * real (height dc));
             index = ((1 - lm_x (lms 8)) * real (width dc), lm_y (lms 8) * real (height dc));
             d = euclidean thumb index;
             tracked = switchState cfg (fst index) (snd index) d
                         ((drawCursor cfg (fst index) (snd index) (isDrawingRef s) s)
                            \<lparr>lastDistanceRef := d\<rparr>)
         in processHand cfg lms s = (if isFist lms then clearDrawingCanvas tracked else tracked) \<and>
            (d < 40) = (\<exists>c. canvasDrawingRef tracked = Some (dc\<lparr>content := content dc @ [c]\<rparr>)) \<and>
            (\<not> d < 40) = (canvasDrawingRef tracked = Some dc) \<and>
            (d < 40 \<longrightarrow> isDrawingRef tracked) \<and>
            (\<not> d < 40 \<longrightarrow> isDrawingRef tracked = isDrawingRef s) \<and>
            (d = 40 \<longrightarrow> canvasDrawingRef tracked = Some dc \<and> isDrawingRef tracked = isDrawingRef s)"
proof -
  define thumb where "thumb = ((1 - lm_x (lms 4)) * real (width dc), lm_y (lms 4) * real (height dc))"
  define index where "index = ((1 - lm_x (lms 8)) * real (width dc), lm_y (lms 8) * real (height dc))"
  define d where "d = euclidean thumb index"
  define s2 where "s2 = (drawCursor cfg (fst index) (snd index) (isDrawingRef s) s)\<lparr>lastDistanceRef := d\<rparr>"
  define tracked where "tracked = switchState cfg (fst index) (snd index) d s2"
  have s2: "canvasDrawingRef s2 = Some dc" "isDrawingRef s2 = isDrawingRef s"
    using assms by (simp_all add: s2_def)
  have d: "pinchDistance dc lms = d"
    by (simp add: pinchDistance_euclidean d_def thumb_def index_def toCanvas_def)
  have code: "processHand cfg lms s = (if isFist lms then clearDrawingCanvas tracked else tracked)"
    using assms d
    by (simp add: processHand_def Let_def tracked_def s2_def index_def toCanvas_def)
  have yes: "d < 40 \<Longrightarrow> isDrawingRef tracked \<and>
      (\<exists>c. canvasDrawingRef tracked = Some (dc\<lparr>content := content dc @ [c]\<rparr>))"
    using switchState_draw [OF s2(1), of d cfg "fst index" "snd index"]
    unfolding tracked_def by blast
  have no: "\<not> d < 40 \<Longrightarrow> isDrawingRef tracked = isDrawingRef s \<and> canvasDrawingRef tracked = Some dc"
    using switchState_no_draw [of d cfg "fst index" "snd index" s2] s2 by (simp add: tracked_def)
  have grown: "(d < 40) = (\<exists>c. canvasDrawingRef tracked = Some (dc\<lparr>content := content dc @ [c]\<rparr>))"
  proof (cases "d < 40")
    case True
    then show ?thesis using yes by blast
  next
    case False
    then have "canvasDrawingRef tracked = Some dc"
      using no by blast
    then have "\<And>c. canvasDrawingRef tracked \<noteq> Some (dc\<lparr>content := content dc @ [c]\<rparr>)"
      by (rule canvas_not_grown)
    then show ?thesis using False by blast
  qed
  have same: "(\<not> d < 40) = (canvasDrawingRef tracked = Some dc)"
  proof (cases "d < 40")
    case True
    then obtain c where "canvasDrawingRef tracked = Some (dc\<lparr>content := content dc @ [c]\<rparr>)"
      using yes by blast
    then have "canvasDrawingRef tracked \<noteq> Some dc"
      using canvas_not_grown [of "canvasDrawingRef tracked" dc c] by blast
    then show ?thesis using True by blast
  next
    case False
    then show ?thesis using no by blast
  qed
  have edge: "d = 40 \<Longrightarrow> canvasDrawingRef tracked = Some dc \<and> isDrawingRef tracked = isDrawingRef s"
    using no by simp
  show ?thesis
    unfolding Let_def thumb_def [symmetric] index_def [symmetric] d_def [symmetric]
      s2_def [symmetric] tracked_def [symmetric]
    using code grown same yes no edge by blast
qed

lemma sqrt_1600: "sqrt 1600 = 40"
  using real_sqrt_abs [of 40] by simp

theorem draw_gesture_iff_pinch_below_40_witness:
  "canvasDrawingRef initialApp = Some \<lparr>width = 1000, height = 700, content = []\<rparr> \<and>
   euclidean ((1 - lm_x (edgeHand 4)) * 1000, lm_y (edgeHand 4) * 700)
             ((1 - lm_x (edgeHand 8)) * 1000, lm_y (edgeHand 8) * 700) = 40 \<and>
   \<not> isDrawingRef (processHand demoSettings edgeHand initialApp) \<and>
   canvasDrawingRef (processHand demoSettings edgeHand initialApp)
     = Some \<lparr>width = 1000, height = 700, content = []\<rparr> \<and>
   euclidean ((1 - lm_x (pinchHand 0.5 0.5 4)) * 1000, lm_y (pinchHand 0.5 0.5 4) * 700)
             ((1 - lm_x (pinchHand 0.5 0.5 8)) * 1000, lm_y (pinchHand 0.5 0.5 8) * 700) = 0 \<and>
   isDrawingRef (processHand demoSettings (pinchHand 0.5 0.5) initialApp)"
  using draw_gesture_iff_pinch_below_40
          [of initialApp "\<lparr>width = 1000, height = 700, content = []\<rparr>" edgeHand demoSettings]
        draw_gesture_iff_pinch_below_40
          [of initialApp "\<lparr>width = 1000, height = 700, content = []\<rparr>" "pinchHand 0.5 0.5" demoSettings]
  by (simp add: Let_def initialApp_def edgeHand_def pinchHand_def hand_def euclidean_def
        isFist_unfold sqrt_1600)

section \<open>Evaluation of the worked examples\<close>

lemma sqrt_less_40: "(sqrt x < 40) = (x < 1600)"
  using real_sqrt_less_iff [of x 1600] sqrt_1600 by simp

lemmas eval_defs =
  run_def handleMediaPipeResults_def processHand_def switchState_def
  startDrawing_def scheduleStop_def setTimeout_def clearExistingTimeout_def clearTimeout_def
  stopDrawing_def advance_def drawOnCanvas_def drawCursor_def clearDrawingCanvas_def paint_def
  applySmoothing_def dotCmd_def lineCmd_def toCanvas_def pinchDistance_def isFist_unfold
  hand_def pinchHand_def openHand_def fistHand_def edgeHand_def demoSettings_def initialApp_def
  Let_def sqrt_less_40

section \<open>The frame as a whole\<close>

lemma drawOnCanvas_frame [simp]:
  "cursorCanvasRef (drawOnCanvas cfg x y s) = cursorCanvasRef s"
  "isDrawingRef (drawOnCanvas cfg x y s) = isDrawingRef s"
  "isDrawing (drawOnCanvas cfg x y s) = isDrawing s"
  "drawingStateTimeoutRef (drawOnCanvas cfg x y s) = drawingStateTimeoutRef s"
  "lastDistanceRef (drawOnCanvas cfg x y s) = lastDistanceRef s"
  "cameraReady (drawOnCanvas cfg x y s) = cameraReady s"
  "timers (drawOnCanvas cfg x y s) = timers s"
  "nextTimerId (drawOnCanvas cfg x y s) = nextTimerId s"
  "clock (drawOnCanvas cfg x y s) = clock s"
proof -
  show "cursorCanvasRef (drawOnCanvas cfg x y s) = cursorCanvasRef s"
    by (cases "canvasDrawingRef s") (simp_all add: drawOnCanvas_present, simp add: drawOnCanvas_def)
  show "isDrawingRef (drawOnCanvas cfg x y s) = isDrawingRef s"
    by (cases "canvasDrawingRef s") (simp_all add: drawOnCanvas_present, simp add: drawOnCanvas_def)
  show "isDrawing (drawOnCanvas cfg x y s) = isDrawing s"
    by (cases "canvasDrawingRef s") (simp_all add: drawOnCanvas_present, simp add: drawOnCanvas_def)
  show "drawingStateTimeoutRef (drawOnCanvas cfg x y s) = drawingStateTimeoutRef s"
    by (cases "canvasDrawingRef s") (simp_all add: drawOnCanvas_present, simp add: drawOnCanvas_def)
  show "lastDistanceRef (drawOnCanvas cfg x y s) = lastDistanceRef s"
    by (cases "canvasDrawingRef s") (simp_all add: drawOnCanvas_present, simp add: drawOnCanvas_def)
  show "cameraReady (drawOnCanvas cfg x y s) = cameraReady s"
    by (cases "canvasDrawingRef s") (simp_all add: drawOnCanvas_present, simp add: drawOnCanvas_def)
  show "timers (drawOnCanvas cfg x y s) = timers s"
    by (cases "canvasDrawingRef s") (simp_all add: drawOnCanvas_present, simp add: drawOnCanvas_def)
  show "nextTimerId (drawOnCanvas cfg x y s) = nextTimerId s"
    by (cases "canvasDrawingRef s") (simp_all add: drawOnCanvas_present, simp add: drawOnCanvas_def)
  show "clock (drawOnCanvas cfg x y s) = clock s"
    by (cases "canvasDrawingRef s") (simp_all add: drawOnCanvas_present, simp add: drawOnCanvas_def)
qed

lemma switchState_frame [simp]:
  "cursorCanvasRef (switchState cfg x y d s) = cursorCanvasRef s"
  "lastDistanceRef (switchState cfg x y d s) = lastDistanceRef s"
  "cameraReady (switchState cfg x y d s) = cameraReady s"
  "clock (switchState cfg x y d s) = clock s"
  by (simp_all add: switchState_def Let_def)

lemma clearDrawingCanvas_frame [simp]:
  "cursorCanvasRef (clearDrawingCanvas s) = cursorCanvasRef s"
  "isDrawing (clearDrawingCanvas s) = isDrawing s"
  "drawingStateTimeoutRef (clearDrawingCanvas s) = drawingStateTimeoutRef s"
  "lastDistanceRef (clearDrawingCanvas s) = lastDistanceRef s"
  "lastSmoothedPositionRef (clearDrawingCanvas s) = lastSmoothedPositionRef s"
  "velocityRef (clearDrawingCanvas s) = velocityRef s"
  "cameraReady (clearDrawingCanvas s) = cameraReady s"
  "timers (clearDrawingCanvas s) = timers s"
  "nextTimerId (clearDrawingCanvas s) = nextTimerId s"
  "clock (clearDrawingCanvas s) = clock s"
  by (simp_all add: clearDrawingCanvas_def split: option.splits)

lemma clearDrawingCanvas_present:
  "canvasDrawingRef s = Some dc \<Longrightarrow>
   clearDrawingCanvas s =
     s\<lparr>canvasDrawingRef := Some (dc\<lparr>content := []\<rparr>), lastPositionRef := None,
       isDrawingRef := False, smoothingPointsRef := [], isNewStrokeRef := True\<rparr>"
  by (simp add: clearDrawingCanvas_def)

lemma switchState_canvas:
  "canvasDrawingRef s = Some dc \<Longrightarrow>
   \<exists>cmds. canvasDrawingRef (switchState cfg x y d s) = Some (dc\<lparr>content := cmds\<rparr>)"
proof (cases "d < 40")
  case True
  assume "canvasDrawingRef s = Some dc"
  from switchState_draw(2) [OF this True] show ?thesis by blast
next
  case False
  assume dc: "canvasDrawingRef s = Some dc"
  have "dc = dc\<lparr>content := content dc\<rparr>" by simp
  with switchState_no_draw(2) [OF False, of cfg x y s] dc show ?thesis by metis
qed

lemma processHand_trackHand:
  "canvasDrawingRef s = Some dc \<Longrightarrow>
   processHand cfg lms s =
     (if isFist lms then clearDrawingCanvas (trackHand cfg dc lms s) else trackHand cfg dc lms s)"
  by (simp add: processHand_def trackHand_def Let_def split: prod.splits)

lemma trackHand_canvas:
  "canvasDrawingRef s = Some dc \<Longrightarrow>
   \<exists>cmds. canvasDrawingRef (trackHand cfg dc lms s) = Some (dc\<lparr>content := cmds\<rparr>)"
  by (simp add: trackHand_def Let_def switchState_canvas split: prod.splits)

lemma trackHand_cursor:
  "canvasDrawingRef s = Some dc \<Longrightarrow> cursorCanvasRef s = Some cc \<Longrightarrow>
   cursorCanvasRef (trackHand cfg dc lms s) =
     Some (cc\<lparr>width := width dc, height := height dc,
              content := (if isDrawingRef s then [] else cursorShape cfg (toCanvas dc (lms 8)))\<rparr>)"
  by (simp add: trackHand_def Let_def drawCursor_def cursorShape_def split: prod.splits)

lemma handle_single:
  "cameraReady s \<Longrightarrow> canvasDrawingRef s = Some dc \<Longrightarrow> cursorCanvasRef s = Some cc \<Longrightarrow>
   handleMediaPipeResults cfg [lms] s = processHand cfg lms s"
  by (simp add: handleMediaPipeResults_def)

lemma fold_stopDrawing:
  "fold (\<lambda>_. stopDrawing) xs s = (if xs = [] then s else stopDrawing s)"
proof (induction xs arbitrary: s)
  case Nil
  then show ?case by simp
next
  case (Cons a xs)
  have "stopDrawing (stopDrawing s) = stopDrawing s"
    by (simp add: stopDrawing_def)
  with Cons show ?case by simp
qed

lemma advance_fires:
  assumes "(i, due) \<in> set (timers s)" and "due \<le> t"
  shows "advance t s =
           stopDrawing (s\<lparr>timers := filter (\<lambda>(i, d). \<not> d \<le> t) (timers s), clock := max (clock s) t\<rparr>)"
proof -
  have "(i, due) \<in> set (filter (\<lambda>(i, d). d \<le> t) (timers s))"
    using assms by simp
  then have "filter (\<lambda>(i, d). d \<le> t) (timers s) \<noteq> []"
    by (metis empty_iff list.set(1))
  then show ?thesis
    by (simp add: advance_def Let_def fold_stopDrawing)
qed

lemma pendingStop_fields:
  "canvasDrawingRef pendingStop =
     Some \<lparr>width = 1000, height = 700,
           content = [FillArc (500, 350) 2.5 ''#ffffff'' SourceOver,
                      StrokeLine (500, 350) (553, 350) 5 ''#ffffff'' SourceOver]\<rparr>"
  "isDrawingRef pendingStop"
  "lastSmoothedPositionRef pendingStop = Some (553, 350)"
  "velocityRef pendingStop = (15, 0)"
  "timers pendingStop = [(1, 50)]"
  "drawingStateTimeoutRef pendingStop = Some 1"
  by (simp_all add: pendingStop_def eval_defs)

section \<open>The fist gesture and the clear command\<close>

text \<open>
  Claim C7. In every processed frame whose landmark set is a fist, the frame ends with the
  whole ink layer cleared, the drawing flag false, no last committed point and the
  new-stroke flag set, whatever the pinch distance of that frame: the frame is the clear
  applied to the state the rest of the frame produced, so anything committed earlier in
  the frame is wiped.
\<close>

theorem fist_clears_and_resets:
  assumes "isFist lms" and "cameraReady s"
    and "canvasDrawingRef s = Some dc" and "cursorCanvasRef s = Some cc"
  shows "handleMediaPipeResults cfg [lms] s = clearDrawingCanvas (trackHand cfg dc lms s) \<and>
         canvasDrawingRef (handleMediaPipeResults cfg [lms] s) = Some (dc\<lparr>content := []\<rparr>) \<and>
         \<not> isDrawingRef (handleMediaPipeResults cfg [lms] s) \<and>
         lastPositionRef (handleMediaPipeResults cfg [lms] s) = None \<and>
         isNewStrokeRef (handleMediaPipeResults cfg [lms] s)"
proof -
  obtain cmds where t: "canvasDrawingRef (trackHand cfg dc lms s) = Some (dc\<lparr>content := cmds\<rparr>)"
    using trackHand_canvas [OF assms(3)] by blast
  have "handleMediaPipeResults cfg [lms] s = clearDrawingCanvas (trackHand cfg dc lms s)"
    using assms by (simp add: handle_single processHand_trackHand)
  then show ?thesis
    by (simp add: clearDrawingCanvas_present [OF t])
qed

theorem fist_clears_and_resets_witness:
  "isFist fistHand \<and> cameraReady firstFrame \<and>
   canvasDrawingRef firstFrame =
     Some \<lparr>width = 1000, height = 700, content = [FillArc (500, 350) 2.5 ''#ffffff'' SourceOver]\<rparr> \<and>
   cursorCanvasRef firstFrame =
     Some \<lparr>width = 1000, height = 700,
           content = [CursorRing (500, 350) 15 ''rgba(200, 200, 200, 0.3)'' ''#ffffff'' 2,
                      CursorDot (500, 350) 3 ''#ffffff'']\<rparr> \<and>
   isDrawingRef firstFrame \<and>
   canvasDrawingRef (handleMediaPipeResults demoSettings [fistHand] firstFrame) =
     Some \<lparr>width = 1000, height = 700, content = []\<rparr> \<and>
   \<not> isDrawingRef (handleMediaPipeResults demoSettings [fistHand] firstFrame) \<and>
   lastPositionRef (handleMediaPipeResults demoSettings [fistHand] firstFrame) = None \<and>
   isNewStrokeRef (handleMediaPipeResults demoSettings [fistHand] firstFrame)"
proof -
  have f: "isFist fistHand"
    by (simp add: isFist_unfold fistHand_def hand_def)
  have r: "cameraReady firstFrame"
    by (simp add: firstFrame_def eval_defs)
  have d: "canvasDrawingRef firstFrame =
     Some \<lparr>width = 1000, height = 700, content = [FillArc (500, 350) 2.5 ''#ffffff'' SourceOver]\<rparr>"
    by (simp add: firstFrame_def eval_defs)
  have c: "cursorCanvasRef firstFrame =
     Some \<lparr>width = 1000, height = 700,
           content = [CursorRing (500, 350) 15 ''rgba(200, 200, 200, 0.3)'' ''#ffffff'' 2,
                      CursorDot (500, 350) 3 ''#ffffff'']\<rparr>"
    by (simp add: firstFrame_def eval_defs)
  have i: "isDrawingRef firstFrame"
    by (simp add: firstFrame_def eval_defs)
  show ?thesis
    using fist_clears_and_resets [OF f r d c, of demoSettings] f r d c i by (elim conjE) simp
qed

text \<open>
  Claim C8. Clearing twice in a row gives the same state, ink layer and session fields, as
  clearing once; and clearing an empty layer gives the same state as clearing a populated
  one.
\<close>

theorem clear_idempotent:
  "clearDrawingCanvas (clearDrawingCanvas s) = clearDrawingCanvas s \<and>
   clearDrawingCanvas (s\<lparr>canvasDrawingRef := Some (dc\<lparr>content := []\<rparr>)\<rparr>)
     = clearDrawingCanvas (s\<lparr>canvasDrawingRef := Some dc\<rparr>)"
  by (simp add: clearDrawingCanvas_def split: option.splits)

text \<open>
  Claim C10. Every clear, by the fist gesture or by the command of the menu, is
  \<^verbatim>\<open>clearDrawingCanvas\<close>: with the canvas mounted it sets the drawing flag to false and empties
  the smoothing buffer; it leaves the last smoothed position, the velocity, the timer table
  and the stored timer handle as they are. So the first point committed by a stroke that
  starts right after a clear is the raw point plus 0.2 times a velocity computed from the
  last smoothed position and the velocity of before the clear, and a stop timer pending at
  the clear still fires when it is due, resetting the filter then.
\<close>

theorem clear_keeps_momentum_and_timer:
  "step (ClearCanvas t) s = clearDrawingCanvas (advance t s) \<and>
   (canvasDrawingRef s = Some dc \<and> isFist lms
      \<longrightarrow> processHand cfg lms s = clearDrawingCanvas (trackHand cfg dc lms s)) \<and>
   (canvasDrawingRef s \<noteq> None
      \<longrightarrow> \<not> isDrawingRef (clearDrawingCanvas s) \<and> smoothingPointsRef (clearDrawingCanvas s) = []) \<and>
   lastSmoothedPositionRef (clearDrawingCanvas s) = lastSmoothedPositionRef s \<and>
   velocityRef (clearDrawingCanvas s) = velocityRef s \<and>
   timers (clearDrawingCanvas s) = timers s \<and>
   drawingStateTimeoutRef (clearDrawingCanvas s) = drawingStateTimeoutRef s \<and>
   (canvasDrawingRef s \<noteq> None \<and> lastSmoothedPositionRef s = Some lastSmoothed \<and>
    0 < smoothingLevel cfg \<and> d < 40
      \<longrightarrow> lastPositionRef (switchState cfg x y d (clearDrawingCanvas s)) =
            Some (x + 0.2 * (0.3 * (x - fst lastSmoothed) + 0.7 * fst (velocityRef s)),
                  y + 0.2 * (0.3 * (y - snd lastSmoothed) + 0.7 * snd (velocityRef s)))) \<and>
   ((i, due) \<in> set (timers s) \<and> due \<le> t
      \<longrightarrow> lastSmoothedPositionRef (advance t (clearDrawingCanvas s)) = None \<and>
          velocityRef (advance t (clearDrawingCanvas s)) = (0, 0) \<and>
          (i, due) \<notin> set (timers (advance t (clearDrawingCanvas s))))"
proof -
  have fist: "canvasDrawingRef s = Some dc \<and> isFist lms
      \<longrightarrow> processHand cfg lms s = clearDrawingCanvas (trackHand cfg dc lms s)"
    by (simp add: processHand_trackHand)
  have flag: "canvasDrawingRef s \<noteq> None
      \<longrightarrow> \<not> isDrawingRef (clearDrawingCanvas s) \<and> smoothingPointsRef (clearDrawingCanvas s) = []"
    by (auto simp add: clearDrawingCanvas_def)
  have momentum: "canvasDrawingRef s \<noteq> None \<and> lastSmoothedPositionRef s = Some lastSmoothed \<and>
    0 < smoothingLevel cfg \<and> d < 40
      \<longrightarrow> lastPositionRef (switchState cfg x y d (clearDrawingCanvas s)) =
            Some (x + 0.2 * (0.3 * (x - fst lastSmoothed) + 0.7 * fst (velocityRef s)),
                  y + 0.2 * (0.3 * (y - snd lastSmoothed) + 0.7 * snd (velocityRef s)))"
  proof (intro impI, elim conjE)
    assume dc: "canvasDrawingRef s \<noteq> None" and l: "lastSmoothedPositionRef s = Some lastSmoothed"
      and lev: "0 < smoothingLevel cfg" and d: "d < 40"
    from dc obtain c where c: "canvasDrawingRef s = Some c" by blast
    let ?s = "startDrawing (clearDrawingCanvas s)"
    have cs: "canvasDrawingRef ?s = Some (c\<lparr>content := []\<rparr>)"
      by (simp add: clearDrawingCanvas_present [OF c])
    have sm: "fst (applySmoothing cfg x y ?s) =
            (x + 0.2 * (0.3 * (x - fst lastSmoothed) + 0.7 * fst (velocityRef s)),
             y + 0.2 * (0.3 * (y - snd lastSmoothed) + 0.7 * snd (velocityRef s)))"
      using lev l by (simp add: applySmoothing_def Let_def)
    have "switchState cfg x y d (clearDrawingCanvas s) = drawOnCanvas cfg x y ?s"
      using d by (simp add: switchState_def Let_def clearDrawingCanvas_present [OF c])
    then show "lastPositionRef (switchState cfg x y d (clearDrawingCanvas s)) =
            Some (x + 0.2 * (0.3 * (x - fst lastSmoothed) + 0.7 * fst (velocityRef s)),
                  y + 0.2 * (0.3 * (y - snd lastSmoothed) + 0.7 * snd (velocityRef s)))"
      by (simp add: drawOnCanvas_present [OF cs] sm)
  qed
  have timer: "(i, due) \<in> set (timers s) \<and> due \<le> t
      \<longrightarrow> lastSmoothedPositionRef (advance t (clearDrawingCanvas s)) = None \<and>
          velocityRef (advance t (clearDrawingCanvas s)) = (0, 0) \<and>
          (i, due) \<notin> set (timers (advance t (clearDrawingCanvas s)))"
  proof (intro impI, elim conjE)
    assume m: "(i, due) \<in> set (timers s)" and le: "due \<le> t"
    have m': "(i, due) \<in> set (timers (clearDrawingCanvas s))"
      using m by simp
    have a: "advance t (clearDrawingCanvas s) =
            stopDrawing ((clearDrawingCanvas s)
              \<lparr>timers := filter (\<lambda>(i, d). \<not> d \<le> t) (timers s), clock := max (clock s) t\<rparr>)"
      using advance_fires [OF m' le] by simp
    show "lastSmoothedPositionRef (advance t (clearDrawingCanvas s)) = None \<and>
          velocityRef (advance t (clearDrawingCanvas s)) = (0, 0) \<and>
          (i, due) \<notin> set (timers (advance t (clearDrawingCanvas s)))"
      unfolding a using le by (simp add: stopDrawing_def)
  qed
  have step: "step (ClearCanvas t) s = clearDrawingCanvas (advance t s)"
    by simp
  have kept: "lastSmoothedPositionRef (clearDrawingCanvas s) = lastSmoothedPositionRef s"
    "velocityRef (clearDrawingCanvas s) = velocityRef s"
    "timers (clearDrawingCanvas s) = timers s"
    "drawingStateTimeoutRef (clearDrawingCanvas s) = drawingStateTimeoutRef s"
    by simp_all
  from step fist flag kept momentum timer show ?thesis
    by blast
qed

theorem clear_keeps_momentum_and_timer_witness:
  "canvasDrawingRef pendingStop \<noteq> None \<and> isDrawingRef pendingStop \<and>
   lastSmoothedPositionRef pendingStop = Some (553, 350) \<and> velocityRef pendingStop = (15, 0) \<and>
   0 < smoothingLevel demoSettings \<and> (0::real) < 40 \<and>
   (1, 50) \<in> set (timers pendingStop) \<and> (50::nat) \<le> 60 \<and>
   \<not> isDrawingRef (clearDrawingCanvas pendingStop) \<and>
   smoothingPointsRef (clearDrawingCanvas pendingStop) = [] \<and>
   lastSmoothedPositionRef (clearDrawingCanvas pendingStop) = Some (553, 350) \<and>
   velocityRef (clearDrawingCanvas pendingStop) = (15, 0) \<and>
   timers (clearDrawingCanvas pendingStop) = [(1, 50)] \<and>
   lastPositionRef (switchState demoSettings 800 350 0 (clearDrawingCanvas pendingStop))
     = Some (816.92, 350) \<and>
   lastSmoothedPositionRef (advance 60 (clearDrawingCanvas pendingStop)) = None \<and>
   velocityRef (advance 60 (clearDrawingCanvas pendingStop)) = (0, 0) \<and>
   (1, 50) \<notin> set (timers (advance 60 (clearDrawingCanvas pendingStop)))"
  using clear_keeps_momentum_and_timer
          [of 60 pendingStop "\<lparr>width = 1000, height = 700,
               content = [FillArc (500, 350) 2.5 ''#ffffff'' SourceOver,
                          StrokeLine (500, 350) (553, 350) 5 ''#ffffff'' SourceOver]\<rparr>"
              fistHand demoSettings "(553, 350)" 0 800 350 1 50]
  by (simp add: pendingStop_fields demoSettings_def)

section \<open>The cursor layer\<close>

text \<open>
  Claim C9, as the code has it. On every processed frame the cursor layer is emptied and
  redrawn according to the drawing flag as it stands when the frame arrives, before the
  state switch of that frame: empty when the flag is already true, otherwise the
  translucent ring (radius 15, or 20 in eraser mode) and the solid centre dot of radius 3
  at the index fingertip's canvas position.
\<close>

theorem cursor_follows_flag_at_frame_entry:
  assumes "cameraReady s" and "canvasDrawingRef s = Some dc" and "cursorCanvasRef s = Some cc"
  shows "cursorCanvasRef (handleMediaPipeResults cfg [lms] s) =
           Some (cc\<lparr>width := width dc, height := height dc,
                    content :=
                      (if isDrawingRef s then []
                       else [CursorRing ((1 - lm_x (lms 8)) * real (width dc), lm_y (lms 8) * real (height dc))
                               (if eraserMode cfg then 20 else 15)
                               (if eraserMode cfg then ''rgba(255, 255, 255, 0.3)''
                                else ''rgba(200, 200, 200, 0.3)'') ''#ffffff'' 2,
                             CursorDot ((1 - lm_x (lms 8)) * real (width dc), lm_y (lms 8) * real (height dc))
                               3 ''#ffffff''])\<rparr>)"
  using assms
  by (simp add: handle_single processHand_trackHand trackHand_cursor cursorShape_def toCanvas_def)

theorem cursor_follows_flag_at_frame_entry_witness:
  "cameraReady initialApp \<and>
   canvasDrawingRef initialApp = Some \<lparr>width = 1000, height = 700, content = []\<rparr> \<and>
   cursorCanvasRef initialApp = Some \<lparr>width = 1000, height = 700, content = []\<rparr> \<and>
   \<not> isDrawingRef initialApp \<and>
   cursorCanvasRef (handleMediaPipeResults demoSettings [pinchHand 0.5 0.5] initialApp) =
     Some \<lparr>width = 1000, height = 700,
           content = [CursorRing (500, 350) 15 ''rgba(200, 200, 200, 0.3)'' ''#ffffff'' 2,
                      CursorDot (500, 350) 3 ''#ffffff'']\<rparr>"
proof -
  have r: "cameraReady initialApp"
    and d: "canvasDrawingRef initialApp = Some \<lparr>width = 1000, height = 700, content = []\<rparr>"
    and c: "cursorCanvasRef initialApp = Some \<lparr>width = 1000, height = 700, content = []\<rparr>"
    and i: "\<not> isDrawingRef initialApp"
    by (simp_all add: initialApp_def)
  show ?thesis
    using cursor_follows_flag_at_frame_entry [OF r d c, of demoSettings "pinchHand 0.5 0.5"] r d c i
    by (simp add: pinchHand_def hand_def demoSettings_def)
qed

text \<open>
  Claim C9 as stated fails on the first frame of a stroke: the frame ends in the drawing
  state with the dot committed, and the cursor layer holds the ring and the centre dot.
\<close>

theorem cursor_shown_on_first_stroke_frame:
  "isDrawingRef (handleMediaPipeResults demoSettings [pinchHand 0.5 0.5] initialApp) \<and>
   map_option content (canvasDrawingRef (handleMediaPipeResults demoSettings [pinchHand 0.5 0.5] initialApp))
     = Some [FillArc (500, 350) 2.5 ''#ffffff'' SourceOver] \<and>
   map_option content (cursorCanvasRef (handleMediaPipeResults demoSettings [pinchHand 0.5 0.5] initialApp))
     = Some [CursorRing (500, 350) 15 ''rgba(200, 200, 200, 0.3)'' ''#ffffff'' 2,
             CursorDot (500, 350) 3 ''#ffffff'']"
  by (simp add: eval_defs)

section \<open>Where the code departs from the specification\<close>

text \<open>
  What the reset of the stop timer achieves, and what the start of a stroke leaves out: after
  the timer's callback the next smoothed point is the raw point; the start of a stroke keeps
  the last smoothed position and the velocity it finds.
\<close>

lemma smooth_after_stop_is_raw:
  "0 < smoothingLevel cfg \<Longrightarrow> fst (applySmoothing cfg x y (stopDrawing s)) = (x, y)"
  by (simp add: applySmoothing_def stopDrawing_def Let_def)

lemma start_keeps_filter:
  "lastSmoothedPositionRef (startDrawing s) = lastSmoothedPositionRef s \<and>
   velocityRef (startDrawing s) = velocityRef s"
  by simp

text \<open>
  A draw frame that arrives while the session is drawing leaves the timer table as it is,
  so a stop scheduled by an earlier no-draw frame stays pending; and a stop scheduled by a
  no-draw frame fires once 30 ms have passed with no event.
\<close>

lemma draw_frame_keeps_timer:
  "isDrawingRef s \<Longrightarrow> d < 40 \<Longrightarrow> timers (switchState cfg x y d s) = timers s"
  by (simp add: switchState_def Let_def)

lemma stop_fires_after_30ms:
  assumes "clock s + 30 \<le> t"
  shows "\<not> isDrawingRef (advance t (scheduleStop s))"
    and "lastSmoothedPositionRef (advance t (scheduleStop s)) = None"
    and "smoothingPointsRef (advance t (scheduleStop s)) = []"
proof -
  have m: "(nextTimerId s, clock s + 30) \<in> set (timers (scheduleStop s))"
    by (simp add: scheduleStop_def setTimeout_def)
  show "\<not> isDrawingRef (advance t (scheduleStop s))"
    and "lastSmoothedPositionRef (advance t (scheduleStop s)) = None"
    and "smoothingPointsRef (advance t (scheduleStop s)) = []"
    unfolding advance_fires [OF m assms] by (simp_all add: stopDrawing_def)
qed

text \<open>
  Claim C2 says that the filter is reset (buffer, last smoothed position, velocity) on
  every stroke start, so that the first smoothed point of a stroke is the raw point. The
  start of a stroke empties the buffer only; the other two are reset by the stop timer
  alone. Here a stroke is ended by a fist and a new one starts at the raw point
  \<open>(800, 350)\<close>: its first committed point is \<open>(818, 349.244)\<close>.
\<close>

theorem stroke_after_fist_starts_with_momentum:
  "\<not> isDrawingRef
       (run [Frame 0 demoSettings [pinchHand 0.5 0.5], Frame 40 demoSettings [fistHand]] initialApp) \<and>
   smoothingPointsRef
       (run [Frame 0 demoSettings [pinchHand 0.5 0.5], Frame 40 demoSettings [fistHand]] initialApp) = [] \<and>
   lastSmoothedPositionRef
       (run [Frame 0 demoSettings [pinchHand 0.5 0.5], Frame 40 demoSettings [fistHand]] initialApp)
     = Some (500, 387.1) \<and>
   velocityRef
       (run [Frame 0 demoSettings [pinchHand 0.5 0.5], Frame 40 demoSettings [fistHand]] initialApp)
     = (0, 10.5) \<and>
   toCanvas \<lparr>width = 1000, height = 700, content = []\<rparr> (pinchHand 0.2 0.5 8) = (800, 350) \<and>
   isDrawingRef
       (run [Frame 0 demoSettings [pinchHand 0.5 0.5], Frame 40 demoSettings [fistHand],
             Frame 80 demoSettings [pinchHand 0.2 0.5]] initialApp) \<and>
   canvasDrawingRef
       (run [Frame 0 demoSettings [pinchHand 0.5 0.5], Frame 40 demoSettings [fistHand],
             Frame 80 demoSettings [pinchHand 0.2 0.5]] initialApp)
     = Some \<lparr>width = 1000, height = 700,
             content = [FillArc (818, 349.244) 2.5 ''#ffffff'' SourceOver]\<rparr>"
  by (simp add: eval_defs)

text \<open>
  Claim C5 says that a draw gesture that returns within 30 ms of a no-draw frame causes no
  transition to idle and no reset. The pending timeout is cleared only in the branch taken
  when the session is not drawing, so it survives the returning draw frame: the no-draw
  frame at 10 ms schedules the stop for 40 ms, the draw frame at 20 ms goes on drawing, and
  at 40 ms the session is idle and the filter reset; the next draw frame starts a new
  stroke with a dot.
\<close>

theorem stop_timer_fires_after_draw_returns:
  "isDrawingRef
       (run [Frame 0 demoSettings [pinchHand 0.5 0.5], Frame 10 demoSettings [openHand],
             Frame 20 demoSettings [pinchHand 0.4 0.5]] initialApp) \<and>
   timers
       (run [Frame 0 demoSettings [pinchHand 0.5 0.5], Frame 10 demoSettings [openHand],
             Frame 20 demoSettings [pinchHand 0.4 0.5]] initialApp) = [(1, 40)] \<and>
   \<not> isDrawingRef
       (run [Frame 0 demoSettings [pinchHand 0.5 0.5], Frame 10 demoSettings [openHand],
             Frame 20 demoSettings [pinchHand 0.4 0.5], Elapse 40] initialApp) \<and>
   lastSmoothedPositionRef
       (run [Frame 0 demoSettings [pinchHand 0.5 0.5], Frame 10 demoSettings [openHand],
             Frame 20 demoSettings [pinchHand 0.4 0.5], Elapse 40] initialApp) = None \<and>
   smoothingPointsRef
       (run [Frame 0 demoSettings [pinchHand 0.5 0.5], Frame 10 demoSettings [openHand],
             Frame 20 demoSettings [pinchHand 0.4 0.5], Elapse 40] initialApp) = [] \<and>
   lastPositionRef
       (run [Frame 0 demoSettings [pinchHand 0.5 0.5], Frame 10 demoSettings [openHand],
             Frame 20 demoSettings [pinchHand 0.4 0.5], Elapse 40] initialApp) = None \<and>
   canvasDrawingRef
       (run [Frame 0 demoSettings [pinchHand 0.5 0.5], Frame 10 demoSettings [openHand],
             Frame 20 demoSettings [pinchHand 0.4 0.5], Frame 50 demoSettings [pinchHand 0.3 0.5]]
          initialApp)
     = Some \<lparr>width = 1000, height = 700,
             content = [FillArc (500, 350) 2.5 ''#ffffff'' SourceOver,
                        StrokeLine (500, 350) (553, 350) 5 ''#ffffff'' SourceOver,
                        FillArc (700, 350) 2.5 ''#ffffff'' SourceOver]\<rparr>"
  by (simp add: eval_defs)

section \<open>Stroke continuity\<close>

lemma applySmoothing_cong:
  assumes "sameFilter s t"
  shows "fst (applySmoothing cfg x y s) = fst (applySmoothing cfg x y t)"
    and "sameFilter (snd (applySmoothing cfg x y s)) (snd (applySmoothing cfg x y t))"
  using assms
  by (simp_all add: sameFilter_def applySmoothing_def Let_def split: option.splits)

lemma smoothTrace_cong: "sameFilter s t \<Longrightarrow> smoothTrace raw s = smoothTrace raw t"
proof (induction raw arbitrary: s t)
  case Nil
  then show ?case by simp
next
  case (Cons a raw)
  obtain cfg p where a: "a = (cfg, p)" by (cases a)
  show ?case
    using applySmoothing_cong [OF Cons.prems, of cfg "fst p" "snd p"] Cons.IH
    by (simp add: a)
qed

lemma length_smoothTrace [simp]: "length (smoothTrace raw s) = length raw"
  by (induction raw arbitrary: s) auto

lemma toCanvas_content [simp]: "toCanvas (dc\<lparr>content := c\<rparr>) lm = toCanvas dc lm"
  by (simp add: toCanvas_def)

lemma pinchDistance_content [simp]: "pinchDistance (dc\<lparr>content := c\<rparr>) lms = pinchDistance dc lms"
  by (simp add: pinchDistance_def)

lemma indexTips_simps [simp]:
  "indexTips dc [] = []"
  "indexTips dc ((cfg, lms) # frames) = (cfg, toCanvas dc (lms 8)) # indexTips dc frames"
  by (simp_all add: indexTips_def)

lemma indexTips_content [simp]: "indexTips (dc\<lparr>content := c\<rparr>) frames = indexTips dc frames"
  by (simp add: indexTips_def)

lemma drawCursor_mounted:
  "canvasDrawingRef s = Some dc \<Longrightarrow> cursorCanvasRef s = Some cc \<Longrightarrow>
   cursorCanvasRef (drawCursor cfg x y b s) \<noteq> None"
  by (simp add: drawCursor_def Let_def)

lemma draw_frame:
  assumes "cameraReady s" and dc: "canvasDrawingRef s = Some dc" and "cursorCanvasRef s = Some cc"
    and pinch: "pinchDistance dc lms < 40" and "\<not> isFist lms"
  shows "\<exists>s2. sameFilter s2 (if isDrawingRef s then s else s\<lparr>smoothingPointsRef := []\<rparr>) \<and>
           canvasDrawingRef s2 = Some dc \<and> cursorCanvasRef s2 \<noteq> None \<and> cameraReady s2 \<and>
           isDrawingRef s2 \<and>
           isNewStrokeRef s2 = (if isDrawingRef s then isNewStrokeRef s else True) \<and>
           lastPositionRef s2 = (if isDrawingRef s then lastPositionRef s else None) \<and>
           handleMediaPipeResults cfg [lms] s =
             drawOnCanvas cfg (fst (toCanvas dc (lms 8))) (snd (toCanvas dc (lms 8))) s2"
proof -
  obtain x y where xy: "toCanvas dc (lms 8) = (x, y)"
    by (cases "toCanvas dc (lms 8)")
  let ?s1 = "(drawCursor cfg x y (isDrawingRef s) s)\<lparr>lastDistanceRef := pinchDistance dc lms\<rparr>"
  let ?s2 = "if isDrawingRef s then ?s1 else startDrawing ?s1"
  have cur: "\<And>b. cursorCanvasRef (drawCursor cfg x y b s) \<noteq> None"
    using assms by (simp add: drawCursor_mounted)
  have h: "handleMediaPipeResults cfg [lms] s = drawOnCanvas cfg x y ?s2"
    using assms
    by (simp add: handle_single processHand_trackHand trackHand_def xy switchState_def Let_def)
  have "sameFilter ?s2 (if isDrawingRef s then s else s\<lparr>smoothingPointsRef := []\<rparr>)"
    by (simp add: sameFilter_def)
  moreover have "canvasDrawingRef ?s2 = Some dc" "cameraReady ?s2" "isDrawingRef ?s2"
    "cursorCanvasRef ?s2 \<noteq> None"
    "isNewStrokeRef ?s2 = (if isDrawingRef s then isNewStrokeRef s else True)"
    "lastPositionRef ?s2 = (if isDrawingRef s then lastPositionRef s else None)"
    using assms cur by auto
  ultimately show ?thesis
    using h xy by (intro exI [of _ ?s2]) simp
qed

lemma sameFilter_drawOnCanvas:
  assumes "canvasDrawingRef s = Some dc"
  shows "sameFilter (drawOnCanvas cfg x y s) (snd (applySmoothing cfg x y s))"
  by (simp add: drawOnCanvas_present [OF assms] sameFilter_def)

lemma sameFilter_trans: "sameFilter a b \<Longrightarrow> sameFilter b c \<Longrightarrow> sameFilter a c"
  by (simp add: sameFilter_def)

lemma draw_frame_post:
  assumes "cameraReady s" and "canvasDrawingRef s = Some dc" and "cursorCanvasRef s = Some cc"
    and "pinchDistance dc lms < 40" and "\<not> isFist lms"
    and t: "t = (if isDrawingRef s then s else s\<lparr>smoothingPointsRef := []\<rparr>)"
    and p: "p = fst (applySmoothing cfg (fst (toCanvas dc (lms 8))) (snd (toCanvas dc (lms 8))) t)"
    and s': "s' = handleMediaPipeResults cfg [lms] s"
  shows "canvasDrawingRef s' =
           Some (dc\<lparr>content := content dc @
                   [if isDrawingRef s then strokeCmd cfg s p else dotCmd cfg p]\<rparr>)"
    and "cursorCanvasRef s' \<noteq> None" and "cameraReady s'" and "isDrawingRef s'"
    and "\<not> isNewStrokeRef s'" and "lastPositionRef s' = Some p"
    and "sameFilter s'
           (snd (applySmoothing cfg (fst (toCanvas dc (lms 8))) (snd (toCanvas dc (lms 8))) t))"
proof -
  let ?x = "fst (toCanvas dc (lms 8))" and ?y = "snd (toCanvas dc (lms 8))"
  obtain s2 where sf: "sameFilter s2 t"
    and dc2: "canvasDrawingRef s2 = Some dc" and cur: "cursorCanvasRef s2 \<noteq> None"
    and rdy: "cameraReady s2" and drw: "isDrawingRef s2"
    and new: "isNewStrokeRef s2 = (if isDrawingRef s then isNewStrokeRef s else True)"
    and lst: "lastPositionRef s2 = (if isDrawingRef s then lastPositionRef s else None)"
    and h: "s' = drawOnCanvas cfg ?x ?y s2"
    using draw_frame [OF assms(1-5), of cfg] unfolding t s' by blast
  have p2: "fst (applySmoothing cfg ?x ?y s2) = p"
    using applySmoothing_cong(1) [OF sf] p by simp
  have cmd: "strokeCmd cfg s2 p = (if isDrawingRef s then strokeCmd cfg s p else dotCmd cfg p)"
    using drw new lst
    by (cases "isDrawingRef s") (auto simp add: strokeCmd_def split: option.splits)
  show "canvasDrawingRef s' =
           Some (dc\<lparr>content := content dc @
                   [if isDrawingRef s then strokeCmd cfg s p else dotCmd cfg p]\<rparr>)"
    unfolding h by (simp add: drawOnCanvas_present [OF dc2] p2 cmd)
  show "cursorCanvasRef s' \<noteq> None" "cameraReady s'" "isDrawingRef s'"
    unfolding h using cur rdy drw by simp_all
  show "\<not> isNewStrokeRef s'" "lastPositionRef s' = Some p"
    unfolding h by (simp_all add: drawOnCanvas_present [OF dc2] p2)
  show "sameFilter s' (snd (applySmoothing cfg ?x ?y t))"
    unfolding h
    using sameFilter_trans [OF sameFilter_drawOnCanvas [OF dc2] applySmoothing_cong(2) [OF sf]]
    by simp
qed

lemma drawing_run:
  assumes "cameraReady s" and "canvasDrawingRef s = Some dc" and "cursorCanvasRef s = Some cc"
    and "isDrawingRef s" and "\<not> isNewStrokeRef s" and "lastPositionRef s = Some q"
    and "\<forall>(cfg, lms) \<in> set frames. pinchDistance dc lms < 40 \<and> \<not> isFist lms"
  shows "canvasDrawingRef (processFrames frames s) =
           Some (dc\<lparr>content := content dc @
                   segments q (zip (map fst frames) (smoothTrace (indexTips dc frames) s))\<rparr>) \<and>
         isDrawingRef (processFrames frames s)"
  using assms
proof (induction frames arbitrary: s dc cc q)
  case Nil
  then show ?case by (simp add: processFrames_def)
next
  case (Cons a frames)
  obtain cfg lms where a: "a = (cfg, lms)" by (cases a)
  let ?x = "fst (toCanvas dc (lms 8))" and ?y = "snd (toCanvas dc (lms 8))"
  define p where "p = fst (applySmoothing cfg ?x ?y s)"
  define s' where "s' = handleMediaPipeResults cfg [lms] s"
  define dc' where "dc' = dc\<lparr>content := content dc @ [lineCmd cfg q p]\<rparr>"
  have pinch: "pinchDistance dc lms < 40" and nofist: "\<not> isFist lms"
    using Cons.prems(7) by (simp_all add: a)
  have t: "s = (if isDrawingRef s then s else s\<lparr>smoothingPointsRef := []\<rparr>)"
    using Cons.prems(4) by simp
  note post = draw_frame_post [OF Cons.prems(1-3) pinch nofist t _ s'_def, of p]
  have p': "p = fst (applySmoothing cfg ?x ?y s)" by (simp add: p_def)
  have cmd: "strokeCmd cfg s p = lineCmd cfg q p"
    using Cons.prems(4-6) by (simp add: strokeCmd_def)
  have dc1: "canvasDrawingRef s' = Some dc'"
    using post(1) [OF p'] Cons.prems(4) by (simp add: cmd dc'_def)
  obtain cc' where cc1: "cursorCanvasRef s' = Some cc'"
    using post(2) [OF p'] by blast
  have rest: "\<forall>(cfg, lms) \<in> set frames. pinchDistance dc' lms < 40 \<and> \<not> isFist lms"
    using Cons.prems(7) by (simp add: dc'_def)
  have ih: "canvasDrawingRef (processFrames frames s') =
           Some (dc'\<lparr>content := content dc' @
                   segments p (zip (map fst frames) (smoothTrace (indexTips dc' frames) s'))\<rparr>) \<and>
         isDrawingRef (processFrames frames s')"
    by (rule Cons.IH [OF post(3) [OF p'] dc1 cc1 post(4) [OF p'] post(5) [OF p'] post(6) [OF p'] rest])
  have tr: "smoothTrace (indexTips dc frames) s' =
            smoothTrace (indexTips dc frames) (snd (applySmoothing cfg ?x ?y s))"
    using smoothTrace_cong [OF post(7) [OF p']] by simp
  have run: "processFrames (a # frames) s = processFrames frames s'"
    by (simp add: processFrames_def a s'_def)
  show ?case
    unfolding run using ih
    by (simp add: tr a dc'_def p_def)
qed

lemma segments_nth:
  "length cs = length ps \<Longrightarrow>
   segments q (zip cs ps) = map (\<lambda>k. lineCmd (cs ! k) ((q # ps) ! k) (ps ! k)) [0..<length ps]"
proof (induction ps arbitrary: cs q)
  case Nil
  then show ?case by simp
next
  case (Cons p ps)
  then obtain c cs' where cs: "cs = c # cs'" and len: "length cs' = length ps"
    by (cases cs) auto
  have "map (\<lambda>k. lineCmd (cs ! k) ((q # p # ps) ! k) ((p # ps) ! k)) [0..<length (p # ps)] =
        lineCmd c q p # map (\<lambda>k. lineCmd (cs' ! k) ((p # ps) ! k) (ps ! k)) [0..<length ps]"
    by (simp add: cs upt_conv_Cons map_Suc_upt [symmetric] del: upt_Suc)
  then show ?case
    using Cons.IH [OF len, of p] by (simp add: cs)
qed

lemma segments_kinds:
  "filter isFillArc (segments q xs) = []"
  "filter isStrokeLine (segments q xs) = segments q xs"
  "length (segments q xs) = length xs"
  by (induction q xs rule: segments.induct) (simp_all add: lineCmd_def)

text \<open>
  Claim C6. Take a session that is not drawing and \<open>N \<ge> 1\<close> consecutive frames that all
  show the draw gesture and no fist, with no stop in between. The ink layer receives
  exactly one dot, on the first frame at the first smoothed point, followed by exactly
  \<open>N - 1\<close> line segments, the \<open>k\<close>-th from the \<open>k\<close>-th to the \<open>(k+1)\<close>-th smoothed point,
  where the smoothed points are the outputs of the filter started with an empty buffer.
\<close>

theorem stroke_is_one_dot_then_segments:
  assumes "cameraReady s" and "canvasDrawingRef s = Some dc" and "cursorCanvasRef s = Some cc"
    and "\<not> isDrawingRef s" and "frames \<noteq> []"
    and "\<forall>(cfg, lms) \<in> set frames. pinchDistance dc lms < 40 \<and> \<not> isFist lms"
  shows "let pts = smoothTrace (indexTips dc frames) (s\<lparr>smoothingPointsRef := []\<rparr>);
             ink = dotCmd (fst (frames ! 0)) (pts ! 0) #
                   map (\<lambda>k. lineCmd (fst (frames ! Suc k)) (pts ! k) (pts ! Suc k))
                     [0..<length frames - 1]
         in length pts = length frames \<and>
            canvasDrawingRef (processFrames frames s) = Some (dc\<lparr>content := content dc @ ink\<rparr>) \<and>
            ink = strokeInk (zip (map fst frames) pts) \<and>
            length (filter isFillArc ink) = 1 \<and>
            length (filter isStrokeLine ink) = length frames - 1 \<and>
            isDrawingRef (processFrames frames s)"
proof -
  obtain cfg lms rest where frames: "frames = (cfg, lms) # rest"
    using assms(5) by (cases frames) auto
  let ?x = "fst (toCanvas dc (lms 8))" and ?y = "snd (toCanvas dc (lms 8))"
  let ?t = "s\<lparr>smoothingPointsRef := []\<rparr>"
  define p where "p = fst (applySmoothing cfg ?x ?y ?t)"
  define ps where "ps = smoothTrace (indexTips dc rest) (snd (applySmoothing cfg ?x ?y ?t))"
  define s' where "s' = handleMediaPipeResults cfg [lms] s"
  define dc' where "dc' = dc\<lparr>content := content dc @ [dotCmd cfg p]\<rparr>"
  have pinch: "pinchDistance dc lms < 40" and nofist: "\<not> isFist lms"
    using assms(6) by (simp_all add: frames)
  have t: "?t = (if isDrawingRef s then s else s\<lparr>smoothingPointsRef := []\<rparr>)"
    using assms(4) by simp
  have p': "p = fst (applySmoothing cfg ?x ?y ?t)"
    by (simp add: p_def)
  note post = draw_frame_post [OF assms(1-3) pinch nofist t p' s'_def]
  have dc1: "canvasDrawingRef s' = Some dc'"
    using post(1) assms(4) by (simp add: dc'_def)
  obtain cc' where cc1: "cursorCanvasRef s' = Some cc'"
    using post(2) by blast
  have rest: "\<forall>(cfg, lms) \<in> set rest. pinchDistance dc' lms < 40 \<and> \<not> isFist lms"
    using assms(6) by (simp add: frames dc'_def)
  have tr: "smoothTrace (indexTips dc rest) s' = ps"
    using smoothTrace_cong [OF post(7)] by (simp add: ps_def)
  have run: "processFrames frames s = processFrames rest s'"
    by (simp add: processFrames_def frames s'_def)
  have pts: "smoothTrace (indexTips dc frames) ?t = p # ps"
    by (simp add: frames p_def ps_def)
  have len: "length ps = length rest"
    by (simp add: ps_def indexTips_def)
  have canvas: "canvasDrawingRef (processFrames frames s) =
      Some (dc\<lparr>content := content dc @ dotCmd cfg p # segments p (zip (map fst rest) ps)\<rparr>)"
    and drawing: "isDrawingRef (processFrames frames s)"
    using drawing_run [OF post(3) dc1 cc1 post(4) post(5) post(6) rest]
    unfolding run by (simp_all add: dc'_def tr)
  have "segments p (zip (map fst rest) ps) =
        map (\<lambda>k. lineCmd (map fst rest ! k) ((p # ps) ! k) (ps ! k)) [0..<length ps]"
    by (rule segments_nth) (simp add: len)
  also have "\<dots> = map (\<lambda>k. lineCmd (fst (frames ! Suc k)) ((p # ps) ! k) ((p # ps) ! Suc k))
                     [0..<length frames - 1]"
    by (rule map_cong) (simp_all add: frames len)
  finally have seg: "segments p (zip (map fst rest) ps) =
      map (\<lambda>k. lineCmd (fst (frames ! Suc k)) ((p # ps) ! k) ((p # ps) ! Suc k))
        [0..<length frames - 1]" .
  have ink: "dotCmd (fst (frames ! 0)) ((p # ps) ! 0) #
               map (\<lambda>k. lineCmd (fst (frames ! Suc k)) ((p # ps) ! k) ((p # ps) ! Suc k))
                 [0..<length frames - 1]
             = dotCmd cfg p # segments p (zip (map fst rest) ps)"
    unfolding seg by (simp add: frames)
  have stroke: "strokeInk (zip (map fst frames) (p # ps)) =
                dotCmd cfg p # segments p (zip (map fst rest) ps)"
    by (simp add: frames)
  have dots: "length (filter isFillArc (dotCmd cfg p # segments p (zip (map fst rest) ps))) = 1"
    by (simp add: segments_kinds dotCmd_def)
  have lines: "length (filter isStrokeLine (dotCmd cfg p # segments p (zip (map fst rest) ps)))
                 = length frames - 1"
    by (simp add: segments_kinds dotCmd_def len frames)
  show ?thesis
    unfolding Let_def pts ink
    using canvas drawing stroke dots lines len by (simp add: frames)
qed

theorem stroke_is_one_dot_then_segments_witness:
  "cameraReady initialApp \<and>
   canvasDrawingRef initialApp = Some \<lparr>width = 1000, height = 700, content = []\<rparr> \<and>
   cursorCanvasRef initialApp = Some \<lparr>width = 1000, height = 700, content = []\<rparr> \<and>
   \<not> isDrawingRef initialApp \<and> threeFrames \<noteq> [] \<and>
   pinchDistance \<lparr>width = 1000, height = 700, content = []\<rparr> (pinchHand 0.5 0.5) < 40 \<and>
   pinchDistance \<lparr>width = 1000, height = 700, content = []\<rparr> (pinchHand 0.4 0.5) < 40 \<and>
   pinchDistance \<lparr>width = 1000, height = 700, content = []\<rparr> (pinchHand 0.3 0.5) < 40 \<and>
   \<not> isFist (pinchHand 0.5 0.5) \<and> \<not> isFist (pinchHand 0.4 0.5) \<and> \<not> isFist (pinchHand 0.3 0.5) \<and>
   canvasDrawingRef (processFrames threeFrames initialApp) =
     Some \<lparr>width = 1000, height = 700,
           content = [FillArc (500, 350) 2.5 ''#ffffff'' SourceOver,
                      StrokeLine (500, 350) (553, 350) 5 ''#ffffff'' SourceOver,
                      StrokeLine (553, 350) (657.92, 350) 5 ''#ffffff'' SourceOver]\<rparr>"
proof -
  have r: "cameraReady initialApp"
    and d: "canvasDrawingRef initialApp = Some \<lparr>width = 1000, height = 700, content = []\<rparr>"
    and c: "cursorCanvasRef initialApp = Some \<lparr>width = 1000, height = 700, content = []\<rparr>"
    and i: "\<not> isDrawingRef initialApp"
    by (simp_all add: initialApp_def)
  have n: "threeFrames \<noteq> []"
    by (simp add: threeFrames_def)
  have g: "pinchDistance \<lparr>width = 1000, height = 700, content = []\<rparr> (pinchHand 0.5 0.5) < 40"
    "pinchDistance \<lparr>width = 1000, height = 700, content = []\<rparr> (pinchHand 0.4 0.5) < 40"
    "pinchDistance \<lparr>width = 1000, height = 700, content = []\<rparr> (pinchHand 0.3 0.5) < 40"
    "\<not> isFist (pinchHand 0.5 0.5)" "\<not> isFist (pinchHand 0.4 0.5)" "\<not> isFist (pinchHand 0.3 0.5)"
    by (simp_all add: pinchDistance_def toCanvas_def pinchHand_def hand_def isFist_unfold)
  have a: "\<forall>(cfg, lms) \<in> set threeFrames.
             pinchDistance \<lparr>width = 1000, height = 700, content = []\<rparr> lms < 40 \<and> \<not> isFist lms"
    using g by (simp add: threeFrames_def)
  show ?thesis
    using stroke_is_one_dot_then_segments [OF r d c i n a] r d c i n g
    by (simp add: Let_def threeFrames_def indexTips_def toCanvas_def pinchHand_def hand_def
          applySmoothing_def dotCmd_def lineCmd_def demoSettings_def initialApp_def)
qed

end
